theory Spec2Isabelle
  imports Complex_Main "HOL-Library.Word" "HOL-Library.Log_Nat"
begin

unbundle bit_operations_syntax

section \<open>HMC5983 direct-I2C magnetometer driver (hmc5983.go)\<close>

subsection \<open>Bus, events and errors\<close>

type_synonym byte = "8 word"
type_synonym int16 = "16 word"
type_synonym uint16 = "16 word"

text \<open>
  The two error values the driver can return: whatever \<open>i2c.Dev.Tx\<close> reports (opaque
  to the driver) and the \<open>errors.New("readRegBlock: empty buffer")\<close> of
  \<open>readRegBlock\<close>.
\<close>

datatype error = TxError string | EmptyBuffer

text \<open>
  Everything the driver does to the outside world is one of two effects: an I2C
  transaction \<open>Tx(w, r)\<close> at a device address (write bytes \<open>w\<close>, then read
  \<open>len(r)\<close> bytes) and a \<open>time.Sleep\<close> (in milliseconds). The history of effects
  is the state that is threaded through the driver.
\<close>

datatype event = TxEvent uint16 "byte list" nat | SleepEvent nat

text \<open>
  The bus is the external collaborator: given the history so far, the address, the
  bytes written and the number of bytes requested, it fails or delivers bytes.
\<close>

type_synonym bus = "event list \<Rightarrow> uint16 \<Rightarrow> byte list \<Rightarrow> nat \<Rightarrow> error + byte list"

text \<open>
  \<open>d.dev.Tx(w, out)\<close>: the read buffer \<open>out\<close> is allocated by the caller with
  \<open>make([]byte, n)\<close> (all zero) and filled by the bus, so the caller always sees
  exactly \<open>n\<close> bytes.
\<close>

definition Tx :: "bus \<Rightarrow> uint16 \<Rightarrow> byte list \<Rightarrow> nat \<Rightarrow> event list \<Rightarrow> (error + byte list) \<times> event list" where
  "Tx b a w n tr =
     ((case b tr a w n of
         Inl e \<Rightarrow> Inl e
       | Inr bs \<Rightarrow> Inr (take n (bs @ replicate n 0))),
      tr @ [TxEvent a w n])"

subsection \<open>Register map and options\<close>

definition regCRA :: byte where "regCRA = 0x00"
definition regCRB :: byte where "regCRB = 0x01"
definition regMODE :: byte where "regMODE = 0x02"
definition regDATA :: byte where "regDATA = 0x03"
definition regSTATUS :: byte where "regSTATUS = 0x09"
definition regIDA :: byte where "regIDA = 0x0A"

definition DefaultAddr :: uint16 where "DefaultAddr = 0x1E"

record Opts =
  ODRHz :: int
  AvgSamples :: int
  GainCode :: int
  Mode :: string
  Addr :: uint16

record Dev =
  dev_addr :: uint16
  lsbPerGaXY :: int
  lsbPerGaZ :: int

definition gainXY :: "int list" where
  "gainXY = [1370, 1090, 820, 660, 440, 390, 330, 230]"

definition gainZ :: "int list" where
  "gainZ = [1330, 980, 660, 600, 400, 355, 295, 205]"

subsection \<open>Register access\<close>

definition writeReg :: "bus \<Rightarrow> Dev \<Rightarrow> byte \<Rightarrow> byte \<Rightarrow> event list \<Rightarrow> (error + unit) \<times> event list" where
  "writeReg b d addr val tr =
     (case Tx b (dev_addr d) [addr, val] 0 tr of
        (Inl e, tr') \<Rightarrow> (Inl e, tr')
      | (Inr _, tr') \<Rightarrow> (Inr (), tr'))"

definition readRegBlock :: "bus \<Rightarrow> Dev \<Rightarrow> byte \<Rightarrow> nat \<Rightarrow> event list \<Rightarrow> (error + byte list) \<times> event list" where
  "readRegBlock b d addr n tr =
     (if n = 0 then (Inl EmptyBuffer, tr)
      else Tx b (dev_addr d) [addr] n tr)"

subsection \<open>New\<close>

definition gain_code :: "Opts \<Rightarrow> int" where
  "gain_code opts = (if GainCode opts < 0 \<or> GainCode opts > 7 then 1 else GainCode opts)"

definition cra_bits :: "Opts \<Rightarrow> byte" where
  "cra_bits opts =
     (let cra0 = (0 :: byte);
          cra1 = (if AvgSamples opts = 8 then cra0 OR push_bit 5 3
                  else if AvgSamples opts = 4 then cra0 OR push_bit 5 2
                  else if AvgSamples opts = 2 then cra0 OR push_bit 5 1
                  else cra0 OR push_bit 5 0)
      in (if ODRHz opts = 75 then cra1 OR push_bit 2 6
          else if ODRHz opts = 30 then cra1 OR push_bit 2 4
          else if ODRHz opts = 15 then cra1 OR push_bit 2 3
          else if ODRHz opts = 7 then cra1 OR push_bit 2 2
          else if ODRHz opts = 3 then cra1 OR push_bit 2 1
          else cra1 OR push_bit 2 3))"

definition New :: "bus \<Rightarrow> Opts \<Rightarrow> event list \<Rightarrow> (error + Dev) \<times> event list" where
  "New b opts tr =
     (let addr = (if Addr opts = 0 then DefaultAddr else Addr opts);
          gc = gain_code opts;
          d = \<lparr>dev_addr = addr, lsbPerGaXY = gainXY ! nat gc, lsbPerGaZ = gainZ ! nat gc\<rparr>;
          cra = cra_bits opts
      in case writeReg b d regCRA cra tr of
           (Inl e, tr1) \<Rightarrow> (Inl e, tr1)
         | (Inr _, tr1) \<Rightarrow>
             (let crb = push_bit 5 (word_of_int gc :: byte)
              in case writeReg b d regCRB crb tr1 of
                   (Inl e, tr2) \<Rightarrow> (Inl e, tr2)
                 | (Inr _, tr2) \<Rightarrow>
                     (let mode = (if Mode opts = ''single'' then 0x01 else 0x00 :: byte)
                      in case writeReg b d regMODE mode tr2 of
                           (Inl e, tr3) \<Rightarrow> (Inl e, tr3)
                         | (Inr _, tr3) \<Rightarrow> (Inr d, tr3 @ [SleepEvent 10]))))"

subsection \<open>SenseRaw\<close>

text \<open>
  \<open>int16(data[i])<<8 | int16(data[i+1])\<close>: the byte is zero-extended to 16 bits, the
  shift drops nothing (the high byte lands in bits 8..15) and the result is read as a
  signed 16-bit value.
\<close>

definition SenseRaw :: "bus \<Rightarrow> Dev \<Rightarrow> event list \<Rightarrow> (error + int16 \<times> int16 \<times> int16) \<times> event list" where
  "SenseRaw b d tr =
     (case readRegBlock b d regDATA 6 tr of
        (Inl e, tr') \<Rightarrow> (Inl e, tr')
      | (Inr data, tr') \<Rightarrow>
          (let x = push_bit 8 (ucast (data ! 0) :: int16) OR ucast (data ! 1);
               z = push_bit 8 (ucast (data ! 2) :: int16) OR ucast (data ! 3);
               y = push_bit 8 (ucast (data ! 4) :: int16) OR ucast (data ! 5)
           in (Inr (x, y, z), tr')))"

subsection \<open>float64 arithmetic\<close>

text \<open>
  \<open>Sense\<close> computes in \<open>float64\<close>. A finite float64 is a rational with a 53-bit
  significand; every arithmetic operation returns the exact result rounded to the nearest
  such rational, ties to even. \<open>NonFinite\<close> stands for the infinities and NaN (a division
  by zero produces one of them). The exponent range is not modelled: the operands here
  are converted machine integers and the constant 1000, so every nonzero result lies
  between \<open>2^-63\<close> and \<open>2^26\<close>, far inside the normal range of float64.
\<close>

datatype float64 = Finite rat | NonFinite

definition pow2 :: "int \<Rightarrow> rat" where
  "pow2 k = (if 0 \<le> k then 2 ^ nat k else 1 / 2 ^ nat (- k))"

text \<open>\<open>floor_log2 q\<close> for \<open>q > 0\<close> is the \<open>k\<close> with \<open>2^k \<le> q < 2^(k+1)\<close>.\<close>

definition floor_log2 :: "rat \<Rightarrow> int" where
  "floor_log2 q =
     (let (a, b) = quotient_of q; k = bitlen a - bitlen b
      in if pow2 k \<le> q then k else k - 1)"

definition round_half_even :: "rat \<Rightarrow> int" where
  "round_half_even m =
     (let f = \<lfloor>m\<rfloor>; r = m - of_int f
      in if r < 1 / 2 then f
         else if 1 / 2 < r then f + 1
         else if even f then f else f + 1)"

definition round_float64 :: "rat \<Rightarrow> rat" where
  "round_float64 q =
     (if q = 0 then 0
      else let e = floor_log2 \<bar>q\<bar> - 52
           in sgn q * of_int (round_half_even (\<bar>q\<bar> / pow2 e)) * pow2 e)"

definition float64_of_int :: "int \<Rightarrow> float64" where
  "float64_of_int i = Finite (round_float64 (of_int i))"

fun float64_div :: "float64 \<Rightarrow> float64 \<Rightarrow> float64" where
  "float64_div (Finite a) (Finite b) = (if b = 0 then NonFinite else Finite (round_float64 (a / b)))"
| "float64_div _ _ = NonFinite"

fun float64_mul :: "float64 \<Rightarrow> float64 \<Rightarrow> float64" where
  "float64_mul (Finite a) (Finite b) = Finite (round_float64 (a * b))"
| "float64_mul _ _ = NonFinite"

definition truncate_toward_zero :: "rat \<Rightarrow> int" where
  "truncate_toward_zero q = (if 0 \<le> q then \<lfloor>q\<rfloor> else \<lceil>q\<rceil>)"

text \<open>
  \<open>int16(f)\<close> for a float64 \<open>f\<close> discards the fraction. When the truncated value does
  not fit in an int16 (or \<open>f\<close> is not finite) the Go specification leaves the result
  implementation-dependent: it is whatever the platform \<open>impl\<close> yields.
\<close>

definition int16_of_float64 :: "(float64 \<Rightarrow> int16) \<Rightarrow> float64 \<Rightarrow> int16" where
  "int16_of_float64 impl f =
     (case f of
        Finite q \<Rightarrow>
          (let t = truncate_toward_zero q
           in if - 32768 \<le> t \<and> t \<le> 32767 then word_of_int t else impl f)
      | NonFinite \<Rightarrow> impl f)"

text \<open>
  The platform behaviour of the gc compiler on amd64 and arm64: convert to a wider
  integer and keep the low 16 bits.
\<close>

fun wrap_impl :: "float64 \<Rightarrow> int16" where
  "wrap_impl (Finite q) = word_of_int (truncate_toward_zero q)"
| "wrap_impl NonFinite = 0"

subsection \<open>Sense and CountsToMicroTesla10\<close>

definition Sense :: "(float64 \<Rightarrow> int16) \<Rightarrow> bus \<Rightarrow> Dev \<Rightarrow> event list \<Rightarrow> (error + int16 \<times> int16 \<times> int16) \<times> event list" where
  "Sense impl b d tr =
     (case SenseRaw b d tr of
        (Inl e, tr') \<Rightarrow> (Inl e, tr')
      | (Inr (rx, ry, rz), tr') \<Rightarrow>
          (let gx = float64_div (float64_of_int (sint rx)) (float64_of_int (lsbPerGaXY d));
               gy = float64_div (float64_of_int (sint ry)) (float64_of_int (lsbPerGaXY d));
               gz = float64_div (float64_of_int (sint rz)) (float64_of_int (lsbPerGaZ d));
               ux = int16_of_float64 impl (float64_mul gx (Finite 1000));
               uy = int16_of_float64 impl (float64_mul gy (Finite 1000));
               uz = int16_of_float64 impl (float64_mul gz (Finite 1000))
           in (Inr (ux, uy, uz), tr')))"

definition CountsToMicroTesla10 :: "(float64 \<Rightarrow> int16) \<Rightarrow> int16 \<Rightarrow> int \<Rightarrow> int16" where
  "CountsToMicroTesla10 impl counts lsbPerGauss =
     (let g = float64_div (float64_of_int (sint counts)) (float64_of_int lsbPerGauss)
      in int16_of_float64 impl (float64_mul g (Finite 1000)))"

text \<open>
  The float64 that \<open>Sense\<close> and \<open>CountsToMicroTesla10\<close> hand to the \<open>int16\<close>
  conversion, and the integer that conversion has to represent.
\<close>

definition scaled_float64 :: "int \<Rightarrow> int \<Rightarrow> float64" where
  "scaled_float64 counts lsb =
     float64_mul (float64_div (float64_of_int counts) (float64_of_int lsb)) (Finite 1000)"

fun float64_trunc :: "float64 \<Rightarrow> int option" where
  "float64_trunc (Finite q) = Some (truncate_toward_zero q)"
| "float64_trunc NonFinite = None"

text \<open>
  The scaled value the comments of \<open>Sense\<close> describe, computed exactly:
  Gauss = counts / LSB-per-Gauss, micro-tesla times ten = Gauss * 1000.
\<close>

definition exact_microtesla10 :: "int \<Rightarrow> int \<Rightarrow> rat" where
  "exact_microtesla10 counts lsbPerGauss = of_int counts / of_int lsbPerGauss * 1000"

text \<open>The value a big-endian two's-complement 16-bit field denotes.\<close>

definition be_int16 :: "byte \<Rightarrow> byte \<Rightarrow> int" where
  "be_int16 hi lo =
     (let v = 256 * uint hi + uint lo in if v < 32768 then v else v - 65536)"

text \<open>A bus that never fails and answers every read with the given bytes.\<close>

definition const_bus :: "byte list \<Rightarrow> bus" where
  "const_bus bs tr a w n = Inr bs"

definition default_opts :: Opts where
  "default_opts = \<lparr>ODRHz = 15, AvgSamples = 1, GainCode = 1, Mode = ''continuous'', Addr = 0\<rparr>"

definition default_dev :: Dev where
  "default_dev = \<lparr>dev_addr = DefaultAddr, lsbPerGaXY = 1090, lsbPerGaZ = 980\<rparr>"

section \<open>MPU9250 magnetometer (AK8963): configuration validation (MAG\_README.md, section 6)\<close>

record Config =
  MagWriteDelayMS :: int
  MagReadDelayMS :: int
  MagScale :: byte
  MagMode :: byte
  MagSampleRateDivider :: byte
  RegisterDebugMagWriteDelay :: int
  RegisterDebugMagReadDelay :: int
  RegisterDebugMagUnsafeMode :: bool

text \<open>The errors built with \<open>fmt.Errorf\<close>, one constructor per message.\<close>

datatype config_error =
    WriteDelayOutOfRange int
  | ReadDelayOutOfRange int
  | ScaleInvalid byte
  | ModeInvalid byte
  | SampleRateDividerOutOfRange byte
  | DebugWriteDelayOutOfRange int
  | DebugWriteDelayNeedsUnsafe
  | DebugReadDelayOutOfRange int

text \<open>
  The effects on the magnetometer side: log lines (\<open>log.Printf\<close>, \<open>log.Println\<close>),
  the two calls of the transport capability, and settle waits in milliseconds.
\<close>

datatype mag_event =
    WarnWriteDelayBelow50 int
  | WarnUnsafeMode
  | TWrite byte byte
  | TReadBlock byte nat
  | Wait int

fun is_transport_call :: "mag_event \<Rightarrow> bool" where
  "is_transport_call (TWrite r v) = True"
| "is_transport_call (TReadBlock r n) = True"
| "is_transport_call _ = False"

definition validModes :: "byte \<rightharpoonup> string" where
  "validModes = map_of
     [(0x00, ''Power-down''),
      (0x01, ''Single measurement''),
      (0x02, ''Continuous 8Hz''),
      (0x06, ''Continuous 100Hz''),
      (0x04, ''External trigger''),
      (0x08, ''Self-test''),
      (0x0F, ''Fuse ROM access'')]"

text \<open>
  \<open>validateMagConfig\<close> returns \<open>nil\<close> (\<open>None\<close>) or an error, and the log lines it
  printed. The warning for a write delay below 50 ms is printed and validation goes on.
\<close>

definition validateMagConfig :: "Config \<Rightarrow> config_error option \<times> mag_event list" where
  "validateMagConfig cfg =
     (if MagWriteDelayMS cfg < 1 \<or> MagWriteDelayMS cfg > 200
      then (Some (WriteDelayOutOfRange (MagWriteDelayMS cfg)), [])
      else
        (let lg = (if MagWriteDelayMS cfg < 50
                   then [WarnWriteDelayBelow50 (MagWriteDelayMS cfg)] else [])
         in if MagReadDelayMS cfg < 1 \<or> MagReadDelayMS cfg > 50
            then (Some (ReadDelayOutOfRange (MagReadDelayMS cfg)), lg)
            else if MagScale cfg > 1
            then (Some (ScaleInvalid (MagScale cfg)), lg)
            else if validModes (MagMode cfg) = None
            then (Some (ModeInvalid (MagMode cfg)), lg)
            else if MagSampleRateDivider cfg > 15
            then (Some (SampleRateDividerOutOfRange (MagSampleRateDivider cfg)), lg)
            else (None, lg)))"

definition validateRegisterDebugMagConfig :: "Config \<Rightarrow> config_error option \<times> mag_event list" where
  "validateRegisterDebugMagConfig cfg =
     (let lg = (if RegisterDebugMagUnsafeMode cfg then [WarnUnsafeMode] else []);
          w = (if RegisterDebugMagWriteDelay cfg > 0
               then (if RegisterDebugMagWriteDelay cfg < 1 \<or> RegisterDebugMagWriteDelay cfg > 500
                     then Some (DebugWriteDelayOutOfRange (RegisterDebugMagWriteDelay cfg))
                     else if RegisterDebugMagWriteDelay cfg < 50 \<and> \<not> RegisterDebugMagUnsafeMode cfg
                     then Some DebugWriteDelayNeedsUnsafe
                     else None)
               else None)
      in case w of
           Some e \<Rightarrow> (Some e, lg)
         | None \<Rightarrow>
             (if RegisterDebugMagReadDelay cfg > 0
              then (if RegisterDebugMagReadDelay cfg < 1 \<or> RegisterDebugMagReadDelay cfg > 100
                    then (Some (DebugReadDelayOutOfRange (RegisterDebugMagReadDelay cfg)), lg)
                    else (None, lg))
              else (None, lg)))"

text \<open>
  The standard configuration of section 3.1 of the README (50 ms write delay, 2 ms read
  delay, 16-bit resolution, 100 Hz continuous mode, divider 1, no override).
\<close>

definition standard_config :: Config where
  "standard_config =
     \<lparr>MagWriteDelayMS = 50, MagReadDelayMS = 2, MagScale = 1, MagMode = 0x06,
      MagSampleRateDivider = 1, RegisterDebugMagWriteDelay = - 1,
      RegisterDebugMagReadDelay = - 1, RegisterDebugMagUnsafeMode = False\<rparr>"

section \<open>MPU9250 magnetometer (AK8963): initialization sequencer\<close>

text \<open>
  The driver file \<open>mpu9250/mpu9250.go\<close> that holds \<open>InitMag\<close> and \<open>writeMagReg\<close> is
  not among the sources; the README gives their signatures, one call
  (\<open>m.writeMagReg(reg.MPU9250_MAG_CNTL2, 0x01, writeDelay)\<close>) and the target sequence.
  The sequencer below follows the specification's section 4.2.
\<close>

datatype seq_state =
    Idle | Reset | PowerDown1 | FuseMode | ReadCalibration | PowerDown2 | SetMode
  | ConfigureContinuousRead | Ready | Failed

datatype transport_error = TransportError string

text \<open>
  The transport capability of section 6 of the specification:
  \<open>write(register, value)\<close> and \<open>readBlock(register, length)\<close>. Its answers may depend
  on everything that happened before.
\<close>

record transport =
  t_write :: "mag_event list \<Rightarrow> byte \<Rightarrow> byte \<Rightarrow> transport_error option"
  t_readBlock :: "mag_event list \<Rightarrow> byte \<Rightarrow> nat \<Rightarrow> transport_error + byte list"

text \<open>
  The register addresses are constants of the absent register package; they are
  parameters here: the device's control register (CNTL), its secondary control register
  (CNTL2), the first of the three trim bytes (ASAX) and the host register that programs
  the relay's polling cadence.
\<close>

record mag_regs =
  MAG_CNTL :: byte
  MAG_CNTL2 :: byte
  MAG_ASAX :: byte
  RELAY_CTRL :: byte

record EffectiveParameters =
  writeDelay :: int
  readDelay :: int
  scale :: byte
  mode :: byte
  sampleRateDivider :: byte

record sequencer =
  state :: seq_state
  events :: "mag_event list"
  visited :: "seq_state list"
  trim :: "byte list"
  failure :: "(seq_state \<times> transport_error) option"

text \<open>
  Modelled from the spec: \<open>writeMagReg\<close> of the absent \<open>mpu9250.go\<close>: one transport
  write followed, when it succeeded, by a wait of \<open>writeDelay\<close> (section 4.2: "register
  writes (each followed by a wait of writeDelay)"; a failure surfaces immediately).
\<close>

definition writeMagReg :: "transport \<Rightarrow> byte \<Rightarrow> byte \<Rightarrow> int \<Rightarrow> mag_event list \<Rightarrow> transport_error option \<times> mag_event list" where
  "writeMagReg T address val wd ev =
     (case t_write T ev address val of
        Some e \<Rightarrow> (Some e, ev @ [TWrite address val])
      | None \<Rightarrow> (None, ev @ [TWrite address val, Wait wd]))"

text \<open>
  Modelled from the spec: the relayed read of the trim bytes of the absent \<open>mpu9250.go\<close>:
  one block read followed, when it succeeded, by a wait of \<open>readDelay\<close> (section 4.2:
  "one relayed read (followed by a wait of readDelay)").
\<close>

definition readMagBlock :: "transport \<Rightarrow> byte \<Rightarrow> nat \<Rightarrow> int \<Rightarrow> mag_event list \<Rightarrow> (transport_error + byte list) \<times> mag_event list" where
  "readMagBlock T address n rd ev =
     (case t_readBlock T ev address n of
        Inl e \<Rightarrow> (Inl e, ev @ [TReadBlock address n])
      | Inr bs \<Rightarrow> (Inr (take n (bs @ replicate n 0)), ev @ [TReadBlock address n, Wait rd]))"

text \<open>
  Modelled from the spec: the byte each write state of the absent \<open>InitMag\<close> sends and
  the register it goes to (section 4.2, steps 1, 2, 3, 5, 6 and 7; the values 0x01, 0x00
  and 0x0F are those of the README's sequence). Step 7 programs the relay with the
  configured \<open>sampleRateDivider\<close>; the specification and the README give it one settle
  wait, so it is one write at the level of the transport capability.
\<close>

fun write_of :: "mag_regs \<Rightarrow> EffectiveParameters \<Rightarrow> seq_state \<Rightarrow> (byte \<times> byte) option" where
  "write_of R p Reset = Some (MAG_CNTL2 R, 0x01)"
| "write_of R p PowerDown1 = Some (MAG_CNTL R, 0x00)"
| "write_of R p FuseMode = Some (MAG_CNTL R, 0x0F)"
| "write_of R p PowerDown2 = Some (MAG_CNTL R, 0x00)"
| "write_of R p SetMode = Some (MAG_CNTL R, push_bit 4 (scale p) OR mode p)"
| "write_of R p ConfigureContinuousRead = Some (RELAY_CTRL R, sampleRateDivider p)"
| "write_of R p _ = None"

text \<open>Modelled from the spec: the fixed order of the states of the absent \<open>InitMag\<close> (section 4.2).\<close>

fun next_state :: "seq_state \<Rightarrow> seq_state" where
  "next_state Idle = Reset"
| "next_state Reset = PowerDown1"
| "next_state PowerDown1 = FuseMode"
| "next_state FuseMode = ReadCalibration"
| "next_state ReadCalibration = PowerDown2"
| "next_state PowerDown2 = SetMode"
| "next_state SetMode = ConfigureContinuousRead"
| "next_state ConfigureContinuousRead = Ready"
| "next_state Ready = Ready"
| "next_state Failed = Failed"

definition enter :: "seq_state \<Rightarrow> sequencer \<Rightarrow> sequencer" where
  "enter s' q = q\<lparr>state := s', visited := visited q @ [s']\<rparr>"

text \<open>
  Modelled from the spec: one transition of the state machine of the absent \<open>InitMag\<close>
  (section 4.2): leaving \<open>Idle\<close> starts the sequence; every other state performs its
  write or its read with the settle wait and moves on, or moves to \<open>Failed\<close> with the
  failing state's name when the transport fails; \<open>Ready\<close> and \<open>Failed\<close> are terminal.
\<close>

definition step :: "transport \<Rightarrow> mag_regs \<Rightarrow> EffectiveParameters \<Rightarrow> sequencer \<Rightarrow> sequencer" where
  "step T R p q =
     (case state q of
        Idle \<Rightarrow> enter Reset q
      | Ready \<Rightarrow> q
      | Failed \<Rightarrow> q
      | ReadCalibration \<Rightarrow>
          (case readMagBlock T (MAG_ASAX R) 3 (readDelay p) (events q) of
             (Inl e, ev) \<Rightarrow> enter Failed (q\<lparr>events := ev, failure := Some (ReadCalibration, e)\<rparr>)
           | (Inr bs, ev) \<Rightarrow> enter PowerDown2 (q\<lparr>events := ev, trim := bs\<rparr>))
      | s \<Rightarrow>
          (case write_of R p s of
             None \<Rightarrow> q
           | Some (r, v) \<Rightarrow>
               (case writeMagReg T r v (writeDelay p) (events q) of
                  (Some e, ev) \<Rightarrow> enter Failed (q\<lparr>events := ev, failure := Some (s, e)\<rparr>)
                | (None, ev) \<Rightarrow> enter (next_state s) (q\<lparr>events := ev\<rparr>))))"

fun rank :: "seq_state \<Rightarrow> nat" where
  "rank Idle = 0"
| "rank Reset = 1"
| "rank PowerDown1 = 2"
| "rank FuseMode = 3"
| "rank ReadCalibration = 4"
| "rank PowerDown2 = 5"
| "rank SetMode = 6"
| "rank ConfigureContinuousRead = 7"
| "rank Ready = 8"
| "rank Failed = 8"

definition terminal :: "seq_state \<Rightarrow> bool" where
  "terminal s = (s = Ready \<or> s = Failed)"

text \<open>Modelled from the spec: the run of the absent \<open>InitMag\<close> to a terminal state.\<close>

function run :: "transport \<Rightarrow> mag_regs \<Rightarrow> EffectiveParameters \<Rightarrow> sequencer \<Rightarrow> sequencer" where
  "run T R p q = (if terminal (state q) then q else run T R p (step T R p q))"
  by pat_completeness auto
termination
proof (relation "measure (\<lambda>(T, R, p, q). 8 - rank (state q))")
  show "wf (measure (\<lambda>(T, R, p, q). 8 - rank (state q)))"
    by simp
next
  fix T :: transport and R :: mag_regs and p :: EffectiveParameters and q :: sequencer
  assume "\<not> terminal (state q)"
  then have "rank (state q) < rank (state (step T R p q))"
    by (cases "state q")
       (auto simp: step_def enter_def terminal_def writeMagReg_def readMagBlock_def
             split: option.splits sum.splits prod.splits)
  moreover have "rank (state (step T R p q)) \<le> 8"
    by (cases "state (step T R p q)") simp_all
  ultimately show "((T, R, p, step T R p q), (T, R, p, q))
      \<in> measure (\<lambda>(T, R, p, q). 8 - rank (state q))"
    by simp
qed

declare run.simps [simp del]

definition idle :: sequencer where
  "idle = \<lparr>state = Idle, events = [], visited = [Idle], trim = [], failure = None\<rparr>"

text \<open>
  Modelled from the spec: the factory sensitivity adjustment of section 3,
  \<open>adjustment = (trimByte - 128) / 256 + 1\<close>, computed by the absent \<open>InitMag\<close> from each
  trim byte.
\<close>

definition adjustment :: "byte \<Rightarrow> rat" where
  "adjustment t = (of_int (uint t) - 128) / 256 + 1"

datatype init_error = InitError seq_state transport_error

text \<open>
  Modelled from the spec: \<open>initialize(params) -> Result<CalibrationValues, InitError>\<close>
  of section 6, the absent \<open>InitMag\<close>: a full run from \<open>Idle\<close>; on \<open>Ready\<close> the three
  adjustments of the trim bytes, otherwise the error tagged with the failing state.
\<close>

definition InitMag :: "transport \<Rightarrow> mag_regs \<Rightarrow> EffectiveParameters \<Rightarrow> (init_error + rat \<times> rat \<times> rat) \<times> sequencer" where
  "InitMag T R p =
     (let q = run T R p idle
      in case failure q of
           Some (s, e) \<Rightarrow> (Inl (InitError s e), q)
         | None \<Rightarrow> (Inr (adjustment (trim q ! 0), adjustment (trim q ! 1), adjustment (trim q ! 2)), q))"

text \<open>
  A settle wait is of write type when it follows a transport write and of read type when
  it follows a block read.
\<close>

fun write_waits :: "mag_event list \<Rightarrow> nat" where
  "write_waits (TWrite r v # Wait d # es) = Suc (write_waits es)"
| "write_waits (e # es) = write_waits es"
| "write_waits [] = 0"

fun read_waits :: "mag_event list \<Rightarrow> nat" where
  "read_waits (TReadBlock r n # Wait d # es) = Suc (read_waits es)"
| "read_waits (e # es) = read_waits es"
| "read_waits [] = 0"

text \<open>
  The README's "Go Fixed Sequence (TARGET)" (section 9.3), written out as the effects
  it lists: six writes, each followed by a wait of \<open>writeDelay\<close>, and the read of the
  three trim bytes, followed by a wait of \<open>readDelay\<close>, in fourth place.
\<close>

definition target_sequence :: "mag_regs \<Rightarrow> EffectiveParameters \<Rightarrow> mag_event list" where
  "target_sequence R p =
     [TWrite (MAG_CNTL2 R) 0x01, Wait (writeDelay p),
      TWrite (MAG_CNTL R) 0x00, Wait (writeDelay p),
      TWrite (MAG_CNTL R) 0x0F, Wait (writeDelay p),
      TReadBlock (MAG_ASAX R) 3, Wait (readDelay p),
      TWrite (MAG_CNTL R) 0x00, Wait (writeDelay p),
      TWrite (MAG_CNTL R) (push_bit 4 (scale p) OR mode p), Wait (writeDelay p),
      TWrite (RELAY_CTRL R) (sampleRateDivider p), Wait (writeDelay p)]"

definition state_order :: "seq_state list" where
  "state_order = [Idle, Reset, PowerDown1, FuseMode, ReadCalibration, PowerDown2, SetMode,
     ConfigureContinuousRead, Ready]"

text \<open>
  The two shapes of a run's history: on the fixed order up to the current state, or the
  fixed order up to some acting state followed by \<open>Failed\<close>.
\<close>

definition on_track :: "sequencer \<Rightarrow> bool" where
  "on_track q = (state q \<noteq> Failed \<and> visited q = take (Suc (rank (state q))) state_order)"

definition failed_after :: "sequencer \<Rightarrow> bool" where
  "failed_after q =
     (state q = Failed \<and> (\<exists>n. 1 \<le> n \<and> n \<le> 7 \<and> visited q = take (Suc n) state_order @ [Failed]))"

text \<open>A transport that never fails and answers every block read with the given bytes.\<close>

definition mock_transport :: "byte list \<Rightarrow> transport" where
  "mock_transport bs = \<lparr>t_write = (\<lambda>ev r v. None), t_readBlock = (\<lambda>ev r n. Inr bs)\<rparr>"

text \<open>The AK8963 addresses of CNTL, CNTL2 and ASAX, and the host's I2C\_SLV0\_CTRL.\<close>

definition ak8963_regs :: mag_regs where
  "ak8963_regs = \<lparr>MAG_CNTL = 0x0A, MAG_CNTL2 = 0x0B, MAG_ASAX = 0x10, RELAY_CTRL = 0x27\<rparr>"

definition standard_params :: EffectiveParameters where
  "standard_params = \<lparr>writeDelay = 50, readDelay = 2, scale = 1, mode = 0x06, sampleRateDivider = 1\<rparr>"

section \<open>Properties of the HMC5983 driver\<close>

lemma Tx_length:
  "Tx b a w n tr = (Inr data, tr') \<Longrightarrow> length data = n"
  by (auto simp: Tx_def split: sum.splits)

lemma readRegBlock_length:
  "readRegBlock b d addr n tr = (Inr data, tr') \<Longrightarrow> length data = n"
  by (auto simp: readRegBlock_def dest: Tx_length split: if_splits)

lemma uint_be_word:
  fixes hi lo :: byte
  shows "uint (push_bit 8 (ucast hi :: int16) OR ucast lo) = 256 * uint hi + uint lo"
proof -
  have "(push_bit 8 (ucast hi :: int16) OR ucast lo) = (word_cat hi lo :: int16)"
    by (simp add: word_cat_eq_push_bit_or)
  also have "\<dots> = push_bit 8 (ucast hi) + ucast lo"
    by (simp add: word_cat_eq)
  finally have e: "(push_bit 8 (ucast hi :: int16) OR ucast lo) = push_bit 8 (ucast hi) + ucast lo" .
  have h: "uint hi < 256" using uint_bounded[of hi] by simp
  have l: "uint lo < 256" using uint_bounded[of lo] by simp
  have h0: "0 \<le> uint hi" by simp
  have l0: "0 \<le> uint lo" by simp
  have uh: "uint (ucast hi :: int16) = uint hi" by (simp add: uint_up_ucast is_up)
  have ul: "uint (ucast lo :: int16) = uint lo" by (simp add: uint_up_ucast is_up)
  have m: "(uint hi * 256 + uint lo) mod 65536 = uint hi * 256 + uint lo"
    using h l h0 l0 by (intro mod_pos_pos_trivial) auto
  show ?thesis
    unfolding e using m
    by (simp add: uint_word_ariths push_bit_eq_mult uh ul mod_add_left_eq)
qed

lemma sint_int16_cases:
  fixes w :: int16
  shows "sint w = (if uint w < 32768 then uint w else uint w - 65536)"
proof -
  have b: "uint w < 65536" using uint_bounded[of w] by simp
  have b0: "0 \<le> uint w" by simp
  show ?thesis
  proof (cases "uint w < 32768")
    case True
    then have "\<not> bit (uint w) 15"
      using b0 by (simp add: bit_iff_odd)
    then show ?thesis using True b b0
      by (simp add: sint_uint signed_take_bit_eq_take_bit_minus take_bit_eq_mod)
  next
    case False
    then have "uint w div 32768 = 1" using b by simp
    then have "bit (uint w) 15"
      by (simp add: bit_iff_odd)
    then show ?thesis using False b b0
      by (simp add: sint_uint signed_take_bit_eq_take_bit_minus take_bit_eq_mod)
  qed
qed

lemma sint_be_word:
  fixes hi lo :: byte
  shows "sint (push_bit 8 (ucast hi :: int16) OR ucast lo) = be_int16 hi lo"
  unfolding sint_int16_cases be_int16_def Let_def uint_be_word ..

subsection \<open>SenseRaw: wire order\<close>

text \<open>
  Claim C9. For every 6-byte block the device delivers from the data registers, in the
  wire order X MSB, X LSB, Z MSB, Z LSB, Y MSB, Y LSB, \<open>SenseRaw\<close> returns \<open>(x, y, z)\<close>
  where \<open>x\<close> is the big-endian signed 16-bit value of bytes 0-1, \<open>z\<close> that of bytes 2-3
  and \<open>y\<close> that of bytes 4-5, after exactly one transaction on the bus.
\<close>

theorem SenseRaw_wire_order:
  assumes "b tr (dev_addr d) [regDATA] 6 = Inr [xh, xl, zh, zl, yh, yl]"
  shows "\<exists>x y z. SenseRaw b d tr = (Inr (x, y, z), tr @ [TxEvent (dev_addr d) [regDATA] 6])
           \<and> sint x = be_int16 xh xl \<and> sint y = be_int16 yh yl \<and> sint z = be_int16 zh zl"
  using assms by (simp add: SenseRaw_def readRegBlock_def Tx_def sint_be_word Let_def)

theorem SenseRaw_wire_order_witness:
  "const_bus [0x12, 0x34, 0xFF, 0xFE, 0x80, 0x00] [] (dev_addr default_dev) [regDATA] 6
      = Inr [0x12, 0x34, 0xFF, 0xFE, 0x80, 0x00]
   \<and> (\<exists>x y z. SenseRaw (const_bus [0x12, 0x34, 0xFF, 0xFE, 0x80, 0x00]) default_dev []
                 = (Inr (x, y, z), [TxEvent 0x1E [0x03] 6])
              \<and> sint x = 4660 \<and> sint y = - 32768 \<and> sint z = - 2)"
  using SenseRaw_wire_order [of "const_bus [0x12, 0x34, 0xFF, 0xFE, 0x80, 0x00]" "[]" default_dev
          "0x12" "0x34" "0xFF" "0xFE" "0x80" "0x00"]
  by (simp add: const_bus_def be_int16_def default_dev_def DefaultAddr_def regDATA_def)

subsection \<open>New: gain code out of range\<close>

lemma writeReg_ok:
  assumes "\<forall>h a w n. \<exists>bs. b h a w n = Inr bs"
  shows "\<exists>tr'. writeReg b d r v t = (Inr (), tr')"
  using assms [rule_format, of t "dev_addr d" "[r, v]" 0]
  by (auto simp: writeReg_def Tx_def)

text \<open>
  Claim C10. When \<open>GainCode\<close> is outside 0..7, \<open>New\<close> behaves exactly as it does for
  \<open>GainCode = 1\<close>: the same transactions, the same result. A device it returns has
  \<open>lsbPerGaXY = 1090\<close> and \<open>lsbPerGaZ = 980\<close>, and on a bus that never fails it does
  return a device, so the gain code is never the reason for an error.
\<close>

theorem New_gain_out_of_range:
  assumes "GainCode opts < 0 \<or> GainCode opts > 7"
  shows "New b opts tr = New b (opts\<lparr>GainCode := 1\<rparr>) tr
       \<and> (\<forall>d tr'. New b opts tr = (Inr d, tr') \<longrightarrow> lsbPerGaXY d = 1090 \<and> lsbPerGaZ d = 980)
       \<and> ((\<forall>h a w n. \<exists>bs. b h a w n = Inr bs) \<longrightarrow> (\<exists>d tr'. New b opts tr = (Inr d, tr')))"
proof -
  have gc: "gain_code opts = 1" using assms by (auto simp: gain_code_def)
  have gc1: "gain_code (opts\<lparr>GainCode := 1\<rparr>) = 1" by (simp add: gain_code_def)
  have cra: "cra_bits (opts\<lparr>GainCode := 1\<rparr>) = cra_bits opts" by (simp add: cra_bits_def)
  have eq: "New b opts tr = New b (opts\<lparr>GainCode := 1\<rparr>) tr"
    by (simp add: New_def gc gc1 cra)
  have tab: "New b opts tr = (Inr d, tr') \<Longrightarrow> lsbPerGaXY d = 1090 \<and> lsbPerGaZ d = 980" for d tr'
    by (auto simp: New_def gc Let_def gainXY_def gainZ_def split: prod.splits sum.splits)
  have ok: "\<exists>d tr'. New b opts tr = (Inr d, tr')" if nf: "\<forall>h a w n. \<exists>bs. b h a w n = Inr bs"
  proof -
    let ?d = "\<lparr>dev_addr = (if Addr opts = 0 then DefaultAddr else Addr opts),
               lsbPerGaXY = gainXY ! nat (gain_code opts), lsbPerGaZ = gainZ ! nat (gain_code opts)\<rparr>"
    obtain t1 where 1: "writeReg b ?d regCRA (cra_bits opts) tr = (Inr (), t1)"
      using writeReg_ok [OF nf] by blast
    obtain t2 where 2: "writeReg b ?d regCRB (push_bit 5 (word_of_int (gain_code opts))) t1 = (Inr (), t2)"
      using writeReg_ok [OF nf] by blast
    obtain t3 where 3: "writeReg b ?d regMODE (if Mode opts = ''single'' then 0x01 else 0x00) t2 = (Inr (), t3)"
      using writeReg_ok [OF nf] by blast
    show ?thesis
      unfolding New_def Let_def using 1 2 3 by simp
  qed
  show ?thesis using eq tab ok by blast
qed

theorem New_gain_out_of_range_witness:
  "(GainCode (default_opts\<lparr>GainCode := 9\<rparr>) < 0 \<or> GainCode (default_opts\<lparr>GainCode := 9\<rparr>) > 7)
   \<and> (\<forall>h a w n. \<exists>bs. const_bus [] h a w n = Inr bs)
   \<and> New (const_bus []) (default_opts\<lparr>GainCode := 9\<rparr>) [] = New (const_bus []) default_opts []
   \<and> New (const_bus []) (default_opts\<lparr>GainCode := 9\<rparr>) []
       = (Inr default_dev,
          [TxEvent 0x1E [0x00, 0x0C] 0, TxEvent 0x1E [0x01, 0x20] 0, TxEvent 0x1E [0x02, 0x00] 0,
           SleepEvent 10])"
  using New_gain_out_of_range [of "default_opts\<lparr>GainCode := 9\<rparr>" "const_bus []" "[]"]
  by (simp add: default_opts_def const_bus_def New_def gain_code_def cra_bits_def writeReg_def Tx_def
      gainXY_def gainZ_def default_dev_def DefaultAddr_def regCRA_def regCRB_def regMODE_def)

subsection \<open>Sense: scaling\<close>

lemma gain_tables_exact:
  "list_all (\<lambda>x. float64_of_int x = Finite (of_int x) \<and> x \<noteq> 0) (gainXY @ gainZ)"
  by code_simp

lemma gain_exact:
  assumes "g < 8"
  shows "float64_of_int (gainXY ! g) = Finite (of_int (gainXY ! g)) \<and> gainXY ! g \<noteq> 0
       \<and> float64_of_int (gainZ ! g) = Finite (of_int (gainZ ! g)) \<and> gainZ ! g \<noteq> 0"
proof -
  have lx: "length gainXY = 8" and lz: "length gainZ = 8" by (simp_all add: gainXY_def gainZ_def)
  have "gainXY ! g \<in> set (gainXY @ gainZ)" "gainZ ! g \<in> set (gainXY @ gainZ)"
    using assms lx lz by simp_all
  then show ?thesis
    using gain_tables_exact by (simp add: list_all_iff del: set_append)
qed

lemma round_float64_0: "round_float64 0 = 0"
  by (simp add: round_float64_def)

lemma scale_zero:
  assumes "float64_of_int lsb = Finite (of_int lsb)" and "lsb \<noteq> 0"
  shows "int16_of_float64 impl
           (float64_mul (float64_div (float64_of_int (sint (0 :: int16))) (float64_of_int lsb)) (Finite 1000)) = 0"
  using assms
  by (simp add: float64_of_int_def round_float64_0 int16_of_float64_def truncate_toward_zero_def)

lemma New_gain:
  assumes "New b opts tr0 = (Inr d, tr1)"
  shows "\<exists>g<8. lsbPerGaXY d = gainXY ! g \<and> lsbPerGaZ d = gainZ ! g"
proof -
  have g: "nat (gain_code opts) < 8"
    by (auto simp: gain_code_def)
  have "lsbPerGaXY d = gainXY ! nat (gain_code opts) \<and> lsbPerGaZ d = gainZ ! nat (gain_code opts)"
    using assms by (auto simp: New_def Let_def split: prod.splits sum.splits)
  with g show ?thesis by blast
qed

text \<open>
  Claim C8. For every device \<open>New\<close> returns (so for every gain constant of the two
  tables) and every platform behaviour of the out-of-range conversion, a raw count of 0 on
  an axis is scaled by \<open>Sense\<close> to exactly 0 on that axis, and
  \<open>CountsToMicroTesla10\<close> maps the count 0 to 0 for both of the device's gain constants.
  (This driver has no calibration factor: the scaling is count / gain * 1000.)
\<close>

theorem zero_count_scales_to_zero:
  assumes "New b opts tr0 = (Inr d, tr1)"
    and "SenseRaw b d tr = (Inr (rx, ry, rz), tr')"
  shows "(\<exists>ux uy uz. Sense impl b d tr = (Inr (ux, uy, uz), tr')
            \<and> (rx = 0 \<longrightarrow> ux = 0) \<and> (ry = 0 \<longrightarrow> uy = 0) \<and> (rz = 0 \<longrightarrow> uz = 0))
       \<and> CountsToMicroTesla10 impl 0 (lsbPerGaXY d) = 0
       \<and> CountsToMicroTesla10 impl 0 (lsbPerGaZ d) = 0"
proof -
  from New_gain [OF assms(1)] obtain g where g: "g < 8"
    and xy: "lsbPerGaXY d = gainXY ! g" and z: "lsbPerGaZ d = gainZ ! g" by blast
  note e = gain_exact [OF g]
  have zx: "int16_of_float64 impl
           (float64_mul (float64_div (float64_of_int (sint (0 :: int16))) (float64_of_int (lsbPerGaXY d))) (Finite 1000)) = 0"
    using e by (intro scale_zero) (simp_all add: xy)
  have zz: "int16_of_float64 impl
           (float64_mul (float64_div (float64_of_int (sint (0 :: int16))) (float64_of_int (lsbPerGaZ d))) (Finite 1000)) = 0"
    using e by (intro scale_zero) (simp_all add: z)
  show ?thesis
    using assms(2) zx zz by (simp add: Sense_def CountsToMicroTesla10_def Let_def)
qed

theorem zero_count_scales_to_zero_witness:
  "New (const_bus [0x12, 0x34, 0, 0, 0, 0]) default_opts [] =
     (Inr default_dev,
      [TxEvent 0x1E [0x00, 0x0C] 0, TxEvent 0x1E [0x01, 0x20] 0, TxEvent 0x1E [0x02, 0x00] 0,
       SleepEvent 10])
   \<and> SenseRaw (const_bus [0x12, 0x34, 0, 0, 0, 0]) default_dev [] = (Inr (0x1234, 0, 0), [TxEvent 0x1E [0x03] 6])
   \<and> (\<exists>ux. Sense wrap_impl (const_bus [0x12, 0x34, 0, 0, 0, 0]) default_dev []
        = (Inr (ux, 0, 0), [TxEvent 0x1E [0x03] 6]))
   \<and> CountsToMicroTesla10 wrap_impl 0 1090 = 0"
proof -
  have n: "New (const_bus [0x12, 0x34, 0, 0, 0, 0]) default_opts [] =
     (Inr default_dev,
      [TxEvent 0x1E [0x00, 0x0C] 0, TxEvent 0x1E [0x01, 0x20] 0, TxEvent 0x1E [0x02, 0x00] 0,
       SleepEvent 10])"
    by (simp add: default_opts_def const_bus_def New_def gain_code_def cra_bits_def writeReg_def Tx_def
      gainXY_def gainZ_def default_dev_def DefaultAddr_def regCRA_def regCRB_def regMODE_def)
  have s: "SenseRaw (const_bus [0x12, 0x34, 0, 0, 0, 0]) default_dev [] = (Inr (0x1234, 0, 0), [TxEvent 0x1E [0x03] 6])"
    by (simp add: SenseRaw_def readRegBlock_def Tx_def const_bus_def default_dev_def DefaultAddr_def regDATA_def)
  show ?thesis
    using zero_count_scales_to_zero [OF n s, of wrap_impl] n s
    by (auto simp: default_dev_def)
qed


lemma int16_of_float64_trunc:
  "float64_trunc f = Some t \<Longrightarrow>
     int16_of_float64 impl f = (if - 32768 \<le> t \<and> t \<le> 32767 then word_of_int t else impl f)"
  by (cases f) (auto simp: int16_of_float64_def Let_def)

lemma scaled_32767_980: "float64_trunc (scaled_float64 32767 980) = Some 33435"
  by code_simp

lemma scaled_7429_230: "float64_trunc (scaled_float64 7429 230) = Some 32299"
  by code_simp

lemma sint_int16_lt: "sint (w :: int16) < 32768"
  using sint_lt [of w] by simp

text \<open>
  Claim C7 at a concrete input. With the default gain (980 LSB per Gauss on Z) and the raw
  Z count 32767, the exact scaled value is 33435.7..., so its integer part 33435 is what
  the output should hold; the float64 computation yields a value with that integer part,
  no int16 equals 33435, and \<open>Sense\<close> and \<open>CountsToMicroTesla10\<close> return whatever the
  platform yields for an unrepresentable value (-32101 when the low 16 bits are kept).
  Inside the range of int16 the result can also miss the exact value by one: for the count
  7429 and the gain constant 230 the exact value is 32300 and the result is 32299, because
  the float64 product is just below 32300.
\<close>

theorem Sense_full_scale_overflow:
  "truncate_toward_zero (exact_microtesla10 32767 980) = 33435
   \<and> (\<forall>impl. Sense impl (const_bus [0, 0, 0x7F, 0xFF, 0, 0]) default_dev []
               = (Inr (0, 0, impl (scaled_float64 32767 980)), [TxEvent 0x1E [0x03] 6]))
   \<and> (\<forall>impl. CountsToMicroTesla10 impl 32767 980 = impl (scaled_float64 32767 980))
   \<and> float64_trunc (scaled_float64 32767 980) = Some 33435
   \<and> (\<forall>w :: int16. sint w \<noteq> 33435)
   \<and> sint (CountsToMicroTesla10 wrap_impl 32767 980) = - 32101
   \<and> exact_microtesla10 7429 230 = 32300
   \<and> (\<forall>impl. sint (CountsToMicroTesla10 impl 7429 230) = 32299)"
proof -
  have a: "truncate_toward_zero (exact_microtesla10 32767 980) = 33435"
    by code_simp
  have raw: "SenseRaw (const_bus [0, 0, 0x7F, 0xFF, 0, 0]) default_dev []
      = (Inr (0, 0, 32767), [TxEvent 0x1E [0x03] 6])"
    by (simp add: SenseRaw_def readRegBlock_def Tx_def const_bus_def default_dev_def
        DefaultAddr_def regDATA_def)
  have x1090: "float64_of_int 1090 = Finite (of_int 1090)"
    by code_simp
  have z: "int16_of_float64 impl (float64_mul (float64_div (float64_of_int 0) (float64_of_int 1090)) (Finite 1000)) = 0" for impl
    using scale_zero [OF x1090, of impl] by simp
  have big: "int16_of_float64 impl (scaled_float64 32767 980) = impl (scaled_float64 32767 980)" for impl
    by (simp add: int16_of_float64_trunc [OF scaled_32767_980])
  have b: "Sense impl (const_bus [0, 0, 0x7F, 0xFF, 0, 0]) default_dev []
               = (Inr (0, 0, impl (scaled_float64 32767 980)), [TxEvent 0x1E [0x03] 6])" for impl
    unfolding Sense_def raw
    using z [of impl] big [of impl]
    by (simp add: default_dev_def scaled_float64_def)
  have c: "CountsToMicroTesla10 impl 32767 980 = impl (scaled_float64 32767 980)" for impl
    using big [of impl] by (simp add: CountsToMicroTesla10_def scaled_float64_def)
  have d: "sint w \<noteq> 33435" for w :: int16
    using sint_int16_lt [of w] by simp
  have e: "sint (CountsToMicroTesla10 wrap_impl 32767 980) = - 32101"
    by code_simp
  have f: "exact_microtesla10 7429 230 = 32300"
    by (simp add: exact_microtesla10_def)
  have g: "sint (CountsToMicroTesla10 impl 7429 230) = 32299" for impl
  proof -
    have "CountsToMicroTesla10 impl 7429 230 = int16_of_float64 impl (scaled_float64 7429 230)"
      by (simp add: CountsToMicroTesla10_def scaled_float64_def)
    also have "\<dots> = word_of_int 32299"
      by (simp add: int16_of_float64_trunc [OF scaled_7429_230])
    finally show ?thesis by simp
  qed
  show ?thesis
    using a b c d e f g scaled_32767_980 by blast
qed


section \<open>Properties of the configuration validation\<close>

lemma byte_gt_1_iff:
  fixes w :: byte
  shows "(1 < w) = (w \<noteq> 0 \<and> w \<noteq> 1)"
proof -
  have a: "(Suc 0 < unat w) = (unat w \<noteq> 0 \<and> unat w \<noteq> Suc 0)" by arith
  have b: "(unat w = Suc 0) = (w = 1)"
    using word_unat_eq_iff [of w 1] by simp
  have c: "(unat w = 0) = (w = 0)"
    by (simp add: unat_eq_0)
  show ?thesis
    using a unfolding b c by (simp add: word_less_nat_alt)
qed

lemma validModes_None_iff:
  "(validModes m = None) = (m \<notin> {0x00, 0x01, 0x02, 0x04, 0x06, 0x08, 0x0F})"
  by (auto simp: validModes_def)

text \<open>
  Claim C3. \<open>validateMagConfig\<close> returns an error if and only if the write delay is
  outside 1..200 ms, or the read delay is outside 1..50 ms, or the scale is neither 0 nor
  1, or the mode is not one of 0x00, 0x01, 0x02, 0x04, 0x06, 0x08, 0x0F, or the sample rate
  divider exceeds 15; and nothing it does is a call of the transport.
\<close>

theorem validateMagConfig_error_iff:
  "(fst (validateMagConfig cfg) \<noteq> None)
     = (MagWriteDelayMS cfg < 1 \<or> 200 < MagWriteDelayMS cfg
        \<or> MagReadDelayMS cfg < 1 \<or> 50 < MagReadDelayMS cfg
        \<or> MagScale cfg \<notin> {0, 1}
        \<or> MagMode cfg \<notin> {0x00, 0x01, 0x02, 0x04, 0x06, 0x08, 0x0F}
        \<or> 15 < MagSampleRateDivider cfg)
   \<and> filter is_transport_call (snd (validateMagConfig cfg)) = []"
proof -
  have sc: "(1 < MagScale cfg) = (MagScale cfg \<notin> {0, 1})"
    by (simp add: byte_gt_1_iff)
  show ?thesis
    unfolding validateMagConfig_def Let_def validModes_None_iff sc
    by (simp add: not_less)
qed

theorem validateMagConfig_error_iff_witness:
  "fst (validateMagConfig (standard_config\<lparr>MagSampleRateDivider := 16\<rparr>))
     = Some (SampleRateDividerOutOfRange 16)
   \<and> filter is_transport_call (snd (validateMagConfig (standard_config\<lparr>MagSampleRateDivider := 16\<rparr>))) = []
   \<and> fst (validateMagConfig standard_config) = None"
  using validateMagConfig_error_iff [of "standard_config\<lparr>MagSampleRateDivider := 16\<rparr>"]
        validateMagConfig_error_iff [of standard_config]
  by (simp add: validateMagConfig_def standard_config_def validModes_def)

text \<open>
  Claim C4, as stated: a write delay in 1..49 ms with no override present always yields
  an error. It does not: with a write delay of 10 ms and every other field valid, both
  validations return \<open>nil\<close>, and the only effect is the warning.
\<close>

theorem low_write_delay_accepted:
  "validateMagConfig (standard_config\<lparr>MagWriteDelayMS := 10\<rparr>) = (None, [WarnWriteDelayBelow50 10])
   \<and> validateRegisterDebugMagConfig (standard_config\<lparr>MagWriteDelayMS := 10\<rparr>) = (None, [])"
  by (simp add: validateMagConfig_def validateRegisterDebugMagConfig_def standard_config_def validModes_def)

text \<open>
  Claim C4, amended: for a write delay in 1..49 ms and no override present,
  \<open>validateMagConfig\<close> prints the warning that the delay is below the recommended 50 ms
  and nothing else, succeeds exactly when the read delay, the scale, the mode and the
  divider are valid, and \<open>validateRegisterDebugMagConfig\<close> succeeds.
\<close>

theorem low_write_delay_warns:
  assumes "1 \<le> MagWriteDelayMS cfg" and "MagWriteDelayMS cfg < 50"
    and "RegisterDebugMagWriteDelay cfg \<le> 0" and "RegisterDebugMagReadDelay cfg \<le> 0"
  shows "snd (validateMagConfig cfg) = [WarnWriteDelayBelow50 (MagWriteDelayMS cfg)]
       \<and> (fst (validateMagConfig cfg) = None)
           = (1 \<le> MagReadDelayMS cfg \<and> MagReadDelayMS cfg \<le> 50 \<and> MagScale cfg \<le> 1
              \<and> validModes (MagMode cfg) \<noteq> None \<and> MagSampleRateDivider cfg \<le> 15)
       \<and> fst (validateRegisterDebugMagConfig cfg) = None"
  using assms
  by (auto simp: validateMagConfig_def validateRegisterDebugMagConfig_def Let_def not_less)

theorem low_write_delay_warns_witness:
  "1 \<le> MagWriteDelayMS (standard_config\<lparr>MagWriteDelayMS := 10\<rparr>)
   \<and> MagWriteDelayMS (standard_config\<lparr>MagWriteDelayMS := 10\<rparr>) < 50
   \<and> RegisterDebugMagWriteDelay (standard_config\<lparr>MagWriteDelayMS := 10\<rparr>) \<le> 0
   \<and> RegisterDebugMagReadDelay (standard_config\<lparr>MagWriteDelayMS := 10\<rparr>) \<le> 0
   \<and> snd (validateMagConfig (standard_config\<lparr>MagWriteDelayMS := 10\<rparr>)) = [WarnWriteDelayBelow50 10]
   \<and> fst (validateMagConfig (standard_config\<lparr>MagWriteDelayMS := 10\<rparr>)) = None
   \<and> fst (validateRegisterDebugMagConfig (standard_config\<lparr>MagWriteDelayMS := 10\<rparr>)) = None"
  using low_write_delay_warns [of "standard_config\<lparr>MagWriteDelayMS := 10\<rparr>"]
  by (simp add: standard_config_def validModes_def)

text \<open>
  Claim C5. An override delay is present when it is positive (the configuration file
  sets it to -1 to leave it out). \<open>validateRegisterDebugMagConfig\<close> returns an error
  when a present write override is outside 1..500 ms or a present read override is outside
  1..100 ms; a write override in 1..49 ms is an error when the unsafe flag is off; with the
  unsafe flag on, and the read override left out or within 1..100 ms, validation succeeds
  and prints the unsafe-mode warning. These are all the errors: validation fails exactly
  when a present write override exceeds 500 ms or is below 50 ms without the unsafe flag,
  or a present read override exceeds 100 ms.
\<close>

theorem debug_override_validation:
  "(0 < RegisterDebugMagWriteDelay cfg
      \<and> (RegisterDebugMagWriteDelay cfg < 1 \<or> 500 < RegisterDebugMagWriteDelay cfg)
      \<longrightarrow> fst (validateRegisterDebugMagConfig cfg) \<noteq> None)
   \<and> (0 < RegisterDebugMagReadDelay cfg
      \<and> (RegisterDebugMagReadDelay cfg < 1 \<or> 100 < RegisterDebugMagReadDelay cfg)
      \<longrightarrow> fst (validateRegisterDebugMagConfig cfg) \<noteq> None)
   \<and> (1 \<le> RegisterDebugMagWriteDelay cfg \<and> RegisterDebugMagWriteDelay cfg < 50
      \<and> \<not> RegisterDebugMagUnsafeMode cfg
      \<longrightarrow> fst (validateRegisterDebugMagConfig cfg) = Some DebugWriteDelayNeedsUnsafe)
   \<and> (1 \<le> RegisterDebugMagWriteDelay cfg \<and> RegisterDebugMagWriteDelay cfg < 50
      \<and> RegisterDebugMagUnsafeMode cfg
      \<and> (RegisterDebugMagReadDelay cfg \<le> 0
          \<or> (1 \<le> RegisterDebugMagReadDelay cfg \<and> RegisterDebugMagReadDelay cfg \<le> 100))
      \<longrightarrow> validateRegisterDebugMagConfig cfg = (None, [WarnUnsafeMode]))
   \<and> (fst (validateRegisterDebugMagConfig cfg) \<noteq> None)
       = ((0 < RegisterDebugMagWriteDelay cfg
            \<and> (500 < RegisterDebugMagWriteDelay cfg
                \<or> (RegisterDebugMagWriteDelay cfg < 50 \<and> \<not> RegisterDebugMagUnsafeMode cfg)))
          \<or> (0 < RegisterDebugMagReadDelay cfg \<and> 100 < RegisterDebugMagReadDelay cfg))"
proof -
  let ?w = "RegisterDebugMagWriteDelay cfg" and ?r = "RegisterDebugMagReadDelay cfg"
  let ?u = "RegisterDebugMagUnsafeMode cfg"
  have exact: "(fst (validateRegisterDebugMagConfig cfg) \<noteq> None)
      = ((0 < ?w \<and> (500 < ?w \<or> (?w < 50 \<and> \<not> ?u))) \<or> (0 < ?r \<and> 100 < ?r))"
    by (auto simp: validateRegisterDebugMagConfig_def Let_def)
  have wr: "0 < ?w \<and> (?w < 1 \<or> 500 < ?w) \<longrightarrow> fst (validateRegisterDebugMagConfig cfg) \<noteq> None"
    using exact by auto
  have rd: "0 < ?r \<and> (?r < 1 \<or> 100 < ?r) \<longrightarrow> fst (validateRegisterDebugMagConfig cfg) \<noteq> None"
    using exact by auto
  have closed: "1 \<le> ?w \<and> ?w < 50 \<and> \<not> ?u
      \<longrightarrow> fst (validateRegisterDebugMagConfig cfg) = Some DebugWriteDelayNeedsUnsafe"
    by (simp add: validateRegisterDebugMagConfig_def Let_def)
  have unsafe: "1 \<le> ?w \<and> ?w < 50 \<and> ?u \<and> (?r \<le> 0 \<or> (1 \<le> ?r \<and> ?r \<le> 100))
      \<longrightarrow> validateRegisterDebugMagConfig cfg = (None, [WarnUnsafeMode])"
    by (auto simp: validateRegisterDebugMagConfig_def Let_def)
  from wr rd closed unsafe exact show ?thesis
    by (intro conjI)
qed

theorem debug_override_validation_witness:
  "fst (validateRegisterDebugMagConfig (standard_config\<lparr>RegisterDebugMagWriteDelay := 501\<rparr>))
     = Some (DebugWriteDelayOutOfRange 501)
   \<and> fst (validateRegisterDebugMagConfig (standard_config\<lparr>RegisterDebugMagReadDelay := 101\<rparr>))
     = Some (DebugReadDelayOutOfRange 101)
   \<and> fst (validateRegisterDebugMagConfig (standard_config\<lparr>RegisterDebugMagWriteDelay := 10\<rparr>))
     = Some DebugWriteDelayNeedsUnsafe
   \<and> validateRegisterDebugMagConfig
        (standard_config\<lparr>RegisterDebugMagWriteDelay := 10, RegisterDebugMagUnsafeMode := True\<rparr>)
     = (None, [WarnUnsafeMode])"
  using debug_override_validation [of "standard_config\<lparr>RegisterDebugMagWriteDelay := 501\<rparr>"]
        debug_override_validation [of "standard_config\<lparr>RegisterDebugMagReadDelay := 101\<rparr>"]
        debug_override_validation [of "standard_config\<lparr>RegisterDebugMagWriteDelay := 10\<rparr>"]
        debug_override_validation
          [of "standard_config\<lparr>RegisterDebugMagWriteDelay := 10, RegisterDebugMagUnsafeMode := True\<rparr>"]
  by (simp add: standard_config_def validateRegisterDebugMagConfig_def)



section \<open>Properties of the initialization sequencer\<close>

lemma run_terminal: "terminal (state q) \<Longrightarrow> run T R p q = q"
  by (subst run.simps) simp

lemma run_step: "\<not> terminal (state q) \<Longrightarrow> run T R p q = run T R p (step T R p q)"
  by (subst run.simps) simp

lemma run_ok:
  assumes w: "\<And>ev r v. t_write T ev r v = None"
    and r: "\<And>ev r n. t_readBlock T ev r n = Inr (rb ev r n)"
  shows "run T R p idle =
     \<lparr>state = Ready, events = target_sequence R p, visited = state_order,
      trim = take 3 (rb (take 6 (target_sequence R p)) (MAG_ASAX R) 3 @ replicate 3 0), failure = None\<rparr>"
  by (simp add: run_step run_terminal terminal_def step_def enter_def idle_def writeMagReg_def
      readMagBlock_def w r target_sequence_def state_order_def)



lemma step_cases:
  assumes "\<not> terminal (state q)"
  shows "(state (step T R p q) = next_state (state q)
            \<and> visited (step T R p q) = visited q @ [next_state (state q)])
       \<or> (state q \<noteq> Idle \<and> state (step T R p q) = Failed
            \<and> visited (step T R p q) = visited q @ [Failed])"
  using assms
  by (cases "state q")
     (auto simp: step_def enter_def terminal_def writeMagReg_def readMagBlock_def
           split: option.splits sum.splits prod.splits)

lemma take_next:
  assumes "\<not> terminal s"
  shows "take (Suc (rank s)) state_order @ [next_state s] = take (Suc (rank (next_state s))) state_order
       \<and> next_state s \<noteq> Failed"
  using assms by (cases s) (simp_all add: state_order_def terminal_def)

lemma rank_bounds:
  assumes "\<not> terminal s" and "s \<noteq> Idle"
  shows "1 \<le> rank s \<and> rank s \<le> 7"
  using assms by (cases s) (simp_all add: terminal_def)

lemma step_on_track:
  assumes "on_track q" and nt: "\<not> terminal (state q)"
  shows "on_track (step T R p q) \<or> failed_after (step T R p q)"
proof -
  from assms have v: "visited q = take (Suc (rank (state q))) state_order"
    by (simp add: on_track_def)
  from step_cases [OF nt, of T R p] show ?thesis
  proof
    assume a: "state (step T R p q) = next_state (state q)
            \<and> visited (step T R p q) = visited q @ [next_state (state q)]"
    then have "on_track (step T R p q)"
      using take_next [OF nt] v by (simp add: on_track_def)
    then show ?thesis ..
  next
    assume a: "state q \<noteq> Idle \<and> state (step T R p q) = Failed
            \<and> visited (step T R p q) = visited q @ [Failed]"
    then have "state q \<noteq> Idle" by simp
    note rb = rank_bounds [OF nt this]
    have "failed_after (step T R p q)"
      unfolding failed_after_def
    proof (intro conjI exI [of _ "rank (state q)"])
      show "state (step T R p q) = Failed" using a by simp
      show "1 \<le> rank (state q)" using rb by simp
      show "rank (state q) \<le> 7" using rb by simp
      show "visited (step T R p q) = take (Suc (rank (state q))) state_order @ [Failed]"
        using a v by simp
    qed
    then show ?thesis ..
  qed
qed

lemma run_on_track:
  "on_track q \<or> failed_after q \<Longrightarrow>
     (state (run T R p q) = Ready \<and> visited (run T R p q) = state_order)
     \<or> failed_after (run T R p q)"
proof (induction T R p q rule: run.induct)
  case (1 T R p q)
  show ?case
  proof (cases "terminal (state q)")
    case True
    then have r: "run T R p q = q" by (rule run_terminal)
    from "1.prems" show ?thesis
    proof
      assume "on_track q"
      with True have sr: "state q = Ready"
        by (simp add: on_track_def terminal_def)
      with \<open>on_track q\<close> have "state q = Ready \<and> visited q = state_order"
        by (simp add: on_track_def state_order_def)
      then show ?thesis by (simp add: r)
    next
      assume "failed_after q"
      then show ?thesis by (simp add: r)
    qed
  next
    case False
    then have r: "run T R p q = run T R p (step T R p q)"
      by (rule run_step)
    from "1.prems" False have "on_track q"
      by (simp add: failed_after_def terminal_def)
    then have "on_track (step T R p q) \<or> failed_after (step T R p q)"
      using False by (rule step_on_track)
    from "1.IH" [OF False this] show ?thesis
      by (simp add: r)
  qed
qed

lemma run_idle_order:
  "(state (run T R p idle) = Ready \<and> visited (run T R p idle) = state_order)
     \<or> failed_after (run T R p idle)"
  by (rule run_on_track) (simp add: on_track_def idle_def state_order_def)

text \<open>
  Claim C1. For every write delay in 50..200 ms, every scale in 0..1 and every valid mode,
  a run from \<open>Idle\<close> against a transport that never fails ends in \<open>Ready\<close>, visits the
  states in the one fixed order, and performs exactly the target sequence: six waits of
  \<open>writeDelay\<close>, each after a write, and one wait of \<open>readDelay\<close>, after the read. No
  other order is possible: against any transport at all, a run either visits exactly the
  fixed order and ends in \<open>Ready\<close>, or visits a prefix of it that ends in one of the
  seven acting states and then \<open>Failed\<close>.
\<close>

theorem InitMag_fixed_sequence:
  assumes "50 \<le> writeDelay p" and "writeDelay p \<le> 200"
    and "scale p \<le> 1" and "validModes (mode p) \<noteq> None"
    and w: "\<forall>ev r v. t_write T ev r v = None"
    and r: "\<forall>ev r n. \<exists>bs. t_readBlock T ev r n = Inr bs"
  shows "state (run T R p idle) = Ready
       \<and> visited (run T R p idle) = state_order
       \<and> events (run T R p idle) = target_sequence R p
       \<and> write_waits (events (run T R p idle)) = 6
       \<and> read_waits (events (run T R p idle)) = 1
       \<and> [d. Wait d \<leftarrow> events (run T R p idle)]
           = [writeDelay p, writeDelay p, writeDelay p, readDelay p,
              writeDelay p, writeDelay p, writeDelay p]
       \<and> (\<forall>T'. (state (run T' R p idle) = Ready \<and> visited (run T' R p idle) = state_order)
                 \<or> failed_after (run T' R p idle))"
proof -
  from r obtain rb where rb: "\<And>ev r n. t_readBlock T ev r n = Inr (rb ev r n)"
    by metis
  have w': "\<And>ev r v. t_write T ev r v = None" using w by simp
  note run = run_ok [of T rb R p, OF w' rb]
  have "state (run T R p idle) = Ready
       \<and> visited (run T R p idle) = state_order
       \<and> events (run T R p idle) = target_sequence R p
       \<and> write_waits (events (run T R p idle)) = 6
       \<and> read_waits (events (run T R p idle)) = 1
       \<and> [d. Wait d \<leftarrow> events (run T R p idle)]
           = [writeDelay p, writeDelay p, writeDelay p, readDelay p,
              writeDelay p, writeDelay p, writeDelay p]"
    unfolding run by (simp add: target_sequence_def)
  then show ?thesis
    using run_idle_order [of _ R p] by blast
qed

theorem InitMag_fixed_sequence_witness:
  "50 \<le> writeDelay standard_params \<and> writeDelay standard_params \<le> 200
   \<and> scale standard_params \<le> 1 \<and> validModes (mode standard_params) \<noteq> None
   \<and> (\<forall>ev r v. t_write (mock_transport [128, 128, 128]) ev r v = None)
   \<and> (\<forall>ev r n. \<exists>bs. t_readBlock (mock_transport [128, 128, 128]) ev r n = Inr bs)
   \<and> state (run (mock_transport [128, 128, 128]) ak8963_regs standard_params idle) = Ready
   \<and> events (run (mock_transport [128, 128, 128]) ak8963_regs standard_params idle)
       = [TWrite 0x0B 0x01, Wait 50, TWrite 0x0A 0x00, Wait 50, TWrite 0x0A 0x0F, Wait 50,
          TReadBlock 0x10 3, Wait 2, TWrite 0x0A 0x00, Wait 50, TWrite 0x0A 0x16, Wait 50,
          TWrite 0x27 0x01, Wait 50]"
  using InitMag_fixed_sequence [of standard_params "mock_transport [128, 128, 128]" ak8963_regs]
  by (simp add: standard_params_def mock_transport_def validModes_def ak8963_regs_def
      target_sequence_def)

lemma uint_scale_mode:
  fixes s m :: byte
  assumes "s \<le> 1" and "validModes m \<noteq> None"
  shows "uint (push_bit 4 s OR m) = 16 * uint s + uint m"
proof -
  have s: "s = 0 \<or> s = 1"
    using assms(1) byte_gt_1_iff [of s] by (auto simp: not_less [symmetric])
  have m: "m \<in> {0x00, 0x01, 0x02, 0x04, 0x06, 0x08, 0x0F}"
    using assms(2) by (simp add: validModes_None_iff)
  from s m show ?thesis by auto
qed

text \<open>
  Claim C6. For a scale in 0..1 and a valid mode, the \<open>SetMode\<close> state, when its write
  succeeds, performs exactly one write of \<open>(scale << 4) | mode\<close> to the control register
  followed by one wait of \<open>writeDelay\<close>, and moves on to \<open>ConfigureContinuousRead\<close>; the
  byte written is \<open>16 * scale + mode\<close>.
\<close>

theorem SetMode_writes_scale_mode:
  assumes "scale p \<le> 1" and "validModes (mode p) \<noteq> None"
    and "state q = SetMode"
    and "t_write T (events q) (MAG_CNTL R) (push_bit 4 (scale p) OR mode p) = None"
  shows "step T R p q
           = q\<lparr>events := events q @ [TWrite (MAG_CNTL R) (push_bit 4 (scale p) OR mode p),
                                         Wait (writeDelay p)],
                state := ConfigureContinuousRead,
                visited := visited q @ [ConfigureContinuousRead]\<rparr>
       \<and> uint (push_bit 4 (scale p) OR mode p) = 16 * uint (scale p) + uint (mode p)"
  using assms uint_scale_mode [of "scale p" "mode p"]
  by (simp add: step_def writeMagReg_def enter_def)

theorem SetMode_writes_scale_mode_witness:
  "scale standard_params \<le> 1 \<and> validModes (mode standard_params) \<noteq> None
   \<and> state (idle\<lparr>state := SetMode\<rparr>) = SetMode
   \<and> t_write (mock_transport []) (events (idle\<lparr>state := SetMode\<rparr>)) (MAG_CNTL ak8963_regs)
         (push_bit 4 (scale standard_params) OR mode standard_params) = None
   \<and> step (mock_transport []) ak8963_regs standard_params (idle\<lparr>state := SetMode\<rparr>)
       = \<lparr>state = ConfigureContinuousRead, events = [TWrite 0x0A 0x16, Wait 50],
          visited = [Idle, ConfigureContinuousRead], trim = [], failure = None\<rparr>
   \<and> uint (0x16 :: byte) = 16 * 1 + 6"
  using SetMode_writes_scale_mode [of standard_params "idle\<lparr>state := SetMode\<rparr>"
          "mock_transport []" ak8963_regs]
  by (simp add: standard_params_def validModes_def idle_def mock_transport_def ak8963_regs_def)

lemma adjustment_bounds: "1 / 2 \<le> adjustment t \<and> adjustment t \<le> 1.49609375"
proof -
  have "0 \<le> uint t" by simp
  moreover have "uint t \<le> 255" using uint_bounded [of t] by simp
  ultimately have "(0::rat) \<le> of_int (uint t)" and "(of_int (uint t) :: rat) \<le> 255"
    by (simp_all add: of_int_le_iff [where 'a = rat, symmetric] del: of_int_le_iff)
  then show ?thesis
    by (simp add: adjustment_def field_simps)
qed

text \<open>
  Claim C2. After a run against a transport that never fails and delivers the trim bytes
  \<open>tx, ty, tz\<close>, the three calibration adjustments are \<open>(t - 128) / 256 + 1\<close> for
  \<open>t = tx, ty, tz\<close>. For every trim byte the adjustment lies between 0.5 and
  1.49609375; it is exactly 1 for 128, 0.5 for 0 and 1.49609375 for 255.
\<close>

theorem calibration_adjustment:
  assumes w: "\<forall>ev r v. t_write T ev r v = None"
    and r: "\<forall>ev r n. t_readBlock T ev r n = Inr [tx, ty, tz]"
  shows "fst (InitMag T R p)
           = Inr ((of_int (uint tx) - 128) / 256 + 1,
                  (of_int (uint ty) - 128) / 256 + 1,
                  (of_int (uint tz) - 128) / 256 + 1)
       \<and> (\<forall>t. 1 / 2 \<le> adjustment t \<and> adjustment t \<le> 1.49609375)
       \<and> adjustment 128 = 1 \<and> adjustment 0 = 1 / 2 \<and> adjustment 255 = 1.49609375"
proof -
  have w': "\<And>ev r v. t_write T ev r v = None" using w by simp
  have r': "\<And>ev r n. t_readBlock T ev r n = Inr ((\<lambda>ev r n. [tx, ty, tz]) ev r n)" using r by simp
  note run = run_ok [of T "\<lambda>ev r n. [tx, ty, tz]" R p, OF w' r']
  have "fst (InitMag T R p) = Inr (adjustment tx, adjustment ty, adjustment tz)"
    unfolding InitMag_def run by simp
  then show ?thesis
    using adjustment_bounds by (simp add: adjustment_def)
qed

theorem calibration_adjustment_witness:
  "(\<forall>ev r v. t_write (mock_transport [128, 0, 255]) ev r v = None)
   \<and> (\<forall>ev r n. t_readBlock (mock_transport [128, 0, 255]) ev r n = Inr [128, 0, 255])
   \<and> fst (InitMag (mock_transport [128, 0, 255]) ak8963_regs standard_params)
       = Inr (1, 1 / 2, 1.49609375)"
  using calibration_adjustment [of "mock_transport [128, 0, 255]" 128 0 255 ak8963_regs standard_params]
  by (simp add: mock_transport_def)

end
